theory Spec2Isabelle
  imports Complex_Main
begin

section \<open>Map calibration (src/client/app/utils/calibration.ts)\<close>

text \<open>
  The calibration engine maps pixel coordinates of an image to GPS coordinates. This theory
  embeds \<^verbatim>\<open>isValidGPSInput\<close>, \<^verbatim>\<open>normalizeImageDimensions\<close>, \<^verbatim>\<open>calculateScale\<close> and
  \<^verbatim>\<open>calibrate\<close> and settles the properties the specification states about them.
\<close>

subsection \<open>JavaScript numbers\<close>

text \<open>
  A JavaScript \<^verbatim>\<open>number\<close> is a finite value, one of the two infinities, or NaN. What the
  special values do is written out operation by operation, as IEEE 754 and ECMAScript
  define it. On finite values the operations \<open>num_add\<close>, \<open>num_sub\<close>, \<open>num_mul\<close> and
  \<open>num_div\<close> give the exact real result; \<open>binary64\<close> below rounds a real to the nearest
  double, and \<open>mul64\<close> and \<open>div64\<close> are the product and the quotient as the language
  computes them, the exact result rounded. \<^verbatim>\<open>normalizeImageDimensions\<close> is modelled with
  the rounded operations, because what is claimed about it is an exact value.
  \<^verbatim>\<open>calculateScale\<close> and \<^verbatim>\<open>calibrate\<close> are modelled with the exact ones: the theorems
  about them equate the result with the same expression over the same operations, or
  concern which branch is taken and which index is read. The sign of zero is outside the
  model (a zero divisor behaves as \<^verbatim>\<open>+0\<close>).
\<close>

datatype number = Num real | PosInfinity | NegInfinity | NaN

fun is_negative :: "number \<Rightarrow> bool" where
  "is_negative (Num a) = (a < 0)"
| "is_negative NegInfinity = True"
| "is_negative PosInfinity = False"
| "is_negative NaN = False"

definition signed_infinity :: "bool \<Rightarrow> number" where
  "signed_infinity neg = (if neg then NegInfinity else PosInfinity)"

fun num_neg :: "number \<Rightarrow> number" where
  "num_neg (Num a) = Num (- a)"
| "num_neg PosInfinity = NegInfinity"
| "num_neg NegInfinity = PosInfinity"
| "num_neg NaN = NaN"

text \<open>\<^verbatim>\<open>a + b\<close>: NaN is absorbing and the two infinities cancel to NaN.\<close>

fun num_add :: "number \<Rightarrow> number \<Rightarrow> number" where
  "num_add NaN _ = NaN"
| "num_add _ NaN = NaN"
| "num_add (Num a) (Num b) = Num (a + b)"
| "num_add (Num a) y = y"
| "num_add x (Num b) = x"
| "num_add PosInfinity PosInfinity = PosInfinity"
| "num_add NegInfinity NegInfinity = NegInfinity"
| "num_add PosInfinity NegInfinity = NaN"
| "num_add NegInfinity PosInfinity = NaN"

definition num_sub :: "number \<Rightarrow> number \<Rightarrow> number" where
  "num_sub a b = num_add a (num_neg b)"

text \<open>\<^verbatim>\<open>a * b\<close>: an infinity times zero is NaN, otherwise the signs multiply.\<close>

fun num_mul :: "number \<Rightarrow> number \<Rightarrow> number" where
  "num_mul NaN _ = NaN"
| "num_mul _ NaN = NaN"
| "num_mul (Num a) (Num b) = Num (a * b)"
| "num_mul (Num a) y = (if a = 0 then NaN else signed_infinity ((a < 0) \<noteq> is_negative y))"
| "num_mul x (Num b) = (if b = 0 then NaN else signed_infinity (is_negative x \<noteq> (b < 0)))"
| "num_mul x y = signed_infinity (is_negative x \<noteq> is_negative y)"

text \<open>
  \<^verbatim>\<open>a / b\<close>: a finite nonzero value over zero is an infinity with the sign of the
  numerator, zero over zero and an infinity over an infinity are NaN, a finite value over
  an infinity is zero.
\<close>

fun num_div :: "number \<Rightarrow> number \<Rightarrow> number" where
  "num_div NaN _ = NaN"
| "num_div _ NaN = NaN"
| "num_div (Num a) (Num b) =
     (if b \<noteq> 0 then Num (a / b) else if a = 0 then NaN else signed_infinity (a < 0))"
| "num_div (Num a) y = Num 0"
| "num_div x (Num b) = signed_infinity (is_negative x \<noteq> (b < 0))"
| "num_div x y = NaN"

text \<open>\<^verbatim>\<open>a < b\<close>: every comparison with NaN is false.\<close>

fun num_lt :: "number \<Rightarrow> number \<Rightarrow> bool" where
  "num_lt NaN _ = False"
| "num_lt _ NaN = False"
| "num_lt (Num a) (Num b) = (a < b)"
| "num_lt NegInfinity NegInfinity = False"
| "num_lt NegInfinity _ = True"
| "num_lt _ NegInfinity = False"
| "num_lt PosInfinity _ = False"
| "num_lt _ PosInfinity = True"

definition num_gt :: "number \<Rightarrow> number \<Rightarrow> bool" where
  "num_gt a b = num_lt b a"

definition num_le :: "number \<Rightarrow> number \<Rightarrow> bool" where
  "num_le a b = (a \<noteq> NaN \<and> b \<noteq> NaN \<and> (num_lt a b \<or> a = b))"

definition num_ge :: "number \<Rightarrow> number \<Rightarrow> bool" where
  "num_ge a b = num_le b a"

text \<open>\<^verbatim>\<open>Math.abs\<close>, \<^verbatim>\<open>Math.sqrt\<close> and \<^verbatim>\<open>Math.pow(_, 2)\<close>.\<close>

fun Math_abs :: "number \<Rightarrow> number" where
  "Math_abs (Num a) = Num \<bar>a\<bar>"
| "Math_abs PosInfinity = PosInfinity"
| "Math_abs NegInfinity = PosInfinity"
| "Math_abs NaN = NaN"

fun Math_sqrt :: "number \<Rightarrow> number" where
  "Math_sqrt (Num a) = (if a < 0 then NaN else Num (sqrt a))"
| "Math_sqrt PosInfinity = PosInfinity"
| "Math_sqrt NegInfinity = NaN"
| "Math_sqrt NaN = NaN"

fun Math_pow2 :: "number \<Rightarrow> number" where
  "Math_pow2 (Num a) = Num (a ^ 2)"
| "Math_pow2 PosInfinity = PosInfinity"
| "Math_pow2 NegInfinity = PosInfinity"
| "Math_pow2 NaN = NaN"

text \<open>
  \<^verbatim>\<open>Number(v.toFixed(f))\<close> and \<^verbatim>\<open>Number.parseFloat(v.toFixed(f))\<close>. For a finite \<^verbatim>\<open>v\<close>
  below \<^verbatim>\<open>1e21\<close> in magnitude, \<^verbatim>\<open>toFixed\<close> prints \<open>n / 10 ^ f\<close> for the integer \<open>n\<close>
  nearest to \<open>\<bar>v\<bar> * 10 ^ f\<close>, the larger one at a tie, with the sign of \<^verbatim>\<open>v\<close>; from
  \<^verbatim>\<open>1e21\<close> on, and for the infinities and NaN, it prints the number itself. Parsing the
  text gives that value back.
\<close>

fun toFixed_Number :: "nat \<Rightarrow> number \<Rightarrow> number" where
  "toFixed_Number f (Num a) =
     (if 10 ^ 21 \<le> \<bar>a\<bar> then Num a
      else Num (sgn a * (of_int \<lfloor>\<bar>a\<bar> * 10 ^ f + 1 / 2\<rfloor> / 10 ^ f)))"
| "toFixed_Number f v = v"

text \<open>
  Rounding to binary64: round to nearest, ties to even, with 53 bits of significand,
  gradual underflow below \<open>2 ^ -1022\<close> and overflow to an infinity from \<open>2 ^ 1024\<close> on.
  \<open>exponent_up\<close> and \<open>exponent_down\<close> search the power of two that brackets a positive
  value, \<open>binade\<close> is the exponent \<open>e\<close> with \<open>2 ^ e \<le> a < 2 ^ (e + 1)\<close>. The value is
  rounded to a whole number \<open>m\<close> of units \<open>2 ^ (e - 52)\<close>, so \<open>m \<le> 2 ^ 53\<close>, and the
  result reaches \<open>2 ^ 1024\<close> exactly when \<open>e \<ge> 1024\<close>, or \<open>e = 1023\<close> and \<open>m = 2 ^ 53\<close>.
\<close>

definition round_half_even :: "real \<Rightarrow> int" where
  "round_half_even q =
     (let f = \<lfloor>q\<rfloor>; r = q - of_int f
      in if r < 1 / 2 then f else if 1 / 2 < r then f + 1 else if even f then f else f + 1)"

function exponent_up :: "real \<Rightarrow> nat \<Rightarrow> nat" where
  "exponent_up x k = (if x < 2 ^ k then k else exponent_up x (k + 1))"
  by pat_completeness auto
termination
proof (relation "measure (\<lambda>(x, k). nat \<lceil>x\<rceil> - k)")
  fix x :: real and k :: nat
  assume "\<not> x < 2 ^ k"
  then have "(2::real) ^ k \<le> x" by simp
  moreover have "real k < 2 ^ k" by (rule of_nat_less_two_power)
  ultimately have "real k < x" by linarith
  then have "k < nat \<lceil>x\<rceil>" by linarith
  then show "((x, k + 1), (x, k)) \<in> measure (\<lambda>(x, k). nat \<lceil>x\<rceil> - k)" by simp
qed simp

function exponent_down :: "real \<Rightarrow> nat \<Rightarrow> nat" where
  "exponent_down x k = (if x \<le> 0 \<or> 1 \<le> x * 2 ^ k then k else exponent_down x (k + 1))"
  by pat_completeness auto
termination
proof (relation "measure (\<lambda>(x, k). nat \<lceil>1 / x\<rceil> - k)")
  fix x :: real and k :: nat
  assume "\<not> (x \<le> 0 \<or> 1 \<le> x * 2 ^ k)"
  then have pos: "0 < x" and "x * 2 ^ k < 1" by simp_all
  then have "(2::real) ^ k < 1 / x" by (simp add: field_simps)
  moreover have "real k < 2 ^ k" by (rule of_nat_less_two_power)
  ultimately have "real k < 1 / x" by linarith
  then have "k < nat \<lceil>1 / x\<rceil>" by linarith
  then show "((x, k + 1), (x, k)) \<in> measure (\<lambda>(x, k). nat \<lceil>1 / x\<rceil> - k)" by simp
qed simp

declare exponent_up.simps [simp del] exponent_down.simps [simp del]

definition binade :: "real \<Rightarrow> int" where
  "binade a = (if 1 \<le> a then int (exponent_up a 0) - 1 else - int (exponent_down a 0))"

definition pow2 :: "int \<Rightarrow> real" where
  "pow2 e = (if 0 \<le> e then 2 ^ nat e else 1 / 2 ^ nat (- e))"

definition binary64 :: "real \<Rightarrow> number" where
  "binary64 x =
     (if x = 0 then Num 0
      else (let a = \<bar>x\<bar>;
                e = max (binade a) (- 1022);
                u = pow2 (e - 52);
                m = round_half_even (a / u)
            in if 1024 \<le> e \<or> (e = 1023 \<and> m = 2 ^ 53) then signed_infinity (x < 0)
               else Num (sgn x * (of_int m * u))))"

definition round_finite :: "number \<Rightarrow> number" where
  "round_finite v = (case v of Num a \<Rightarrow> binary64 a | _ \<Rightarrow> v)"

text \<open>\<^verbatim>\<open>a * b\<close> and \<^verbatim>\<open>a / b\<close> on doubles: the exact result, rounded.\<close>

definition mul64 :: "number \<Rightarrow> number \<Rightarrow> number" where
  "mul64 a b = round_finite (num_mul a b)"

definition div64 :: "number \<Rightarrow> number \<Rightarrow> number" where
  "div64 a b = round_finite (num_div a b)"

subsection \<open>Data model\<close>

text \<open>
  The interfaces of the source as records. The fields \<^verbatim>\<open>x\<close> and \<^verbatim>\<open>y\<close> of
  \<^verbatim>\<open>CartesianPoint\<close> are \<open>px\<close> and \<open>py\<close> here, those of \<^verbatim>\<open>maxError\<close> are \<open>ex\<close> and
  \<open>ey\<close>.
\<close>

record CartesianPoint =
  px :: number
  py :: number

record GPSPoint =
  longitude :: number
  latitude :: number

record MapScale =
  degreePerUnitX :: number
  degreePerUnitY :: number

record CalibratedPoint =
  cartesian :: CartesianPoint
  gps :: GPSPoint

record MaxError =
  ex :: number
  ey :: number

record CalibrationResult =
  maxError :: MaxError
  origin :: GPSPoint
  opposite :: GPSPoint

record Dimensions =
  width :: number
  height :: number

subsection \<open>normalizeImageDimensions and calculateScale\<close>

definition normalizeImageDimensions :: "Dimensions \<Rightarrow> Dimensions" where
  "normalizeImageDimensions dimensions =
     (if num_gt (width dimensions) (height dimensions)
      then \<lparr>width = Num 500,
            height = div64 (mul64 (Num 500) (height dimensions)) (width dimensions)\<rparr>
      else \<lparr>width = div64 (mul64 (Num 500) (width dimensions)) (height dimensions),
            height = Num 500\<rparr>)"

definition calculateScale :: "CalibratedPoint \<Rightarrow> CalibratedPoint \<Rightarrow> MapScale" where
  "calculateScale p1 p2 =
     (let deltaLatitude = num_sub (latitude (gps p1)) (latitude (gps p2));
          deltaYInUnits = num_sub (py (cartesian p1)) (py (cartesian p2));
          degreePerUnitY = num_div deltaLatitude deltaYInUnits;
          deltaLongitude = num_sub (longitude (gps p1)) (longitude (gps p2));
          deltaXInUnits = num_sub (px (cartesian p1)) (px (cartesian p2));
          degreePerUnitX = num_div deltaLongitude deltaXInUnits
      in \<lparr>degreePerUnitX = degreePerUnitX, degreePerUnitY = degreePerUnitY\<rparr>)"

subsection \<open>calibrate\<close>

text \<open>
  Reading a property of \<^verbatim>\<open>undefined\<close> raises a TypeError. The two places of
  \<^verbatim>\<open>calibrate\<close> that index an array without a guard on its length are
  \<^verbatim>\<open>calibrationSet[0]\<close> and, in the error estimate, \<^verbatim>\<open>scales[i]\<close>; the error names
  the array and the index that was read.
\<close>

datatype error = CalibrationSetUndefined nat | ScalesUndefined nat

definition array_get :: "'a list \<Rightarrow> nat \<Rightarrow> 'a option" where
  "array_get xs i = (if i < length xs then Some (xs ! i) else None)"

text \<open>
  The nested loops of lines 70 to 75. The guards keep \<open>i\<close> and \<open>j\<close> below the length of
  the set, so both reads are in range. The outer bound \<^verbatim>\<open>calibrationSet.length - 1\<close> is
  \<open>-1\<close> for the empty set, hence the comparison over the integers.
\<close>

function scalesInner ::
  "CalibratedPoint list \<Rightarrow> nat \<Rightarrow> nat \<Rightarrow> MapScale list \<Rightarrow> MapScale list" where
  "scalesInner calibrationSet i j scales =
     (if j < length calibrationSet
      then scalesInner calibrationSet i (j + 1)
             (scales @ [calculateScale (calibrationSet ! i) (calibrationSet ! j)])
      else scales)"
  by pat_completeness auto
termination
  by (relation "measure (\<lambda>(calibrationSet, i, j, scales). length calibrationSet - j)") auto

function scalesOuter :: "CalibratedPoint list \<Rightarrow> nat \<Rightarrow> MapScale list \<Rightarrow> MapScale list" where
  "scalesOuter calibrationSet i scales =
     (if int i < int (length calibrationSet) - 1
      then scalesOuter calibrationSet (i + 1) (scalesInner calibrationSet i (i + 1) scales)
      else scales)"
  by pat_completeness auto
termination
  by (relation "measure (\<lambda>(calibrationSet, i, scales). length calibrationSet - i)") auto

text \<open>The averaging loop of lines 80 to 83, on the pair of running sums.\<close>

function scaleSums :: "MapScale list \<Rightarrow> nat \<Rightarrow> number \<times> number \<Rightarrow> number \<times> number" where
  "scaleSums scales i (XScaleSum, YScaleSum) =
     (if i < length scales
      then scaleSums scales (i + 1)
             (num_add XScaleSum (degreePerUnitX (scales ! i)),
              num_add YScaleSum (degreePerUnitY (scales ! i)))
      else (XScaleSum, YScaleSum))"
  by pat_completeness auto
termination
  by (relation "measure (\<lambda>(scales, i, acc). length scales - i)") auto

text \<open>
  The state of the error loop: \<^verbatim>\<open>scalesWithMaxDifference\<close> and the two fields of
  \<^verbatim>\<open>pointIndexWithMaxDifference\<close>. One iteration with \<^verbatim>\<open>scales[i]\<close> already read:
\<close>

type_synonym max_state = "MapScale \<times> int \<times> int"

definition maxDifferenceStep :: "MapScale \<Rightarrow> number \<Rightarrow> number \<Rightarrow> nat \<Rightarrow> max_state \<Rightarrow> max_state" where
  "maxDifferenceStep scale degreePerUnitX' degreePerUnitY' i st =
     (case st of (scalesWithMaxDifference, indexX, indexY) \<Rightarrow>
        let XScaleDifference = Math_abs (num_sub (degreePerUnitX scale) degreePerUnitX');
            YScaleDifference = Math_abs (num_sub (degreePerUnitY scale) degreePerUnitY');
            (m1, indexX1) =
               (if num_gt XScaleDifference (degreePerUnitX scalesWithMaxDifference)
                then (scalesWithMaxDifference\<lparr>degreePerUnitX := XScaleDifference\<rparr>, int i)
                else (scalesWithMaxDifference, indexX));
            (m2, indexY1) =
               (if num_gt YScaleDifference (degreePerUnitY m1)
                then (m1\<lparr>degreePerUnitY := YScaleDifference\<rparr>, int i)
                else (m1, indexY))
        in (m2, indexX1, indexY1))"

text \<open>
  The loop of lines 125 to 136 runs \<open>i\<close> over the indices of the calibration set, not of
  \<open>scales\<close>; where \<^verbatim>\<open>scales[i]\<close> is undefined, reading its \<^verbatim>\<open>degreePerUnitX\<close> raises.
\<close>

function maxDifferenceLoop ::
  "MapScale list \<Rightarrow> nat \<Rightarrow> number \<Rightarrow> number \<Rightarrow> nat \<Rightarrow> max_state \<Rightarrow> error + max_state" where
  "maxDifferenceLoop scales n degreePerUnitX' degreePerUnitY' i st =
     (if i < n
      then (case array_get scales i of
              None \<Rightarrow> Inl (ScalesUndefined i)
            | Some scale \<Rightarrow>
                maxDifferenceLoop scales n degreePerUnitX' degreePerUnitY' (i + 1)
                  (maxDifferenceStep scale degreePerUnitX' degreePerUnitY' i st))
      else Inr st)"
  by pat_completeness auto
termination
  by (relation "measure (\<lambda>(scales, n, dx, dy, i, st). n - i)") auto

declare scalesInner.simps [simp del] scalesOuter.simps [simp del]
  scaleSums.simps [simp del] maxDifferenceLoop.simps [simp del]

text \<open>
  The corners of lines 100 to 113 are the only values \<^verbatim>\<open>calibrate\<close> rounds to six
  decimals. They are computed and then dropped: the result holds \<^verbatim>\<open>originCoordinate\<close>
  and \<^verbatim>\<open>oppositeCoordinate\<close> themselves.
\<close>

definition topLeftCoordinate :: "GPSPoint \<Rightarrow> Dimensions \<Rightarrow> number \<Rightarrow> GPSPoint" where
  "topLeftCoordinate originCoordinate normalizedDimensions degreePerUnitY' =
     (let topLeftLatitude =
            num_add (latitude originCoordinate)
              (num_mul (height normalizedDimensions) degreePerUnitY');
          topLeftLongitude = longitude originCoordinate
      in \<lparr>longitude = toFixed_Number 6 topLeftLongitude,
          latitude = toFixed_Number 6 topLeftLatitude\<rparr>)"

definition downRightCoordinate :: "GPSPoint \<Rightarrow> Dimensions \<Rightarrow> number \<Rightarrow> GPSPoint" where
  "downRightCoordinate originCoordinate normalizedDimensions degreePerUnitX' =
     (let downRightLatitude = latitude originCoordinate;
          downRightLongitude =
            num_add (longitude originCoordinate)
              (num_mul (width normalizedDimensions) degreePerUnitX')
      in \<lparr>longitude = toFixed_Number 6 downRightLongitude,
          latitude = toFixed_Number 6 downRightLatitude\<rparr>)"

definition calibrate :: "CalibratedPoint list \<Rightarrow> Dimensions \<Rightarrow> error + CalibrationResult" where
  "calibrate calibrationSet imageDimensions =
     (let normalizedDimensions = normalizeImageDimensions imageDimensions;
          scales = scalesOuter calibrationSet 0 [];
          numDataPoints = Num (real (length scales));
          (XScaleSum, YScaleSum) = scaleSums scales 0 (Num 0, Num 0);
          degreePerUnitX' = num_div XScaleSum numDataPoints;
          degreePerUnitY' = num_div YScaleSum numDataPoints
      in case array_get calibrationSet 0 of
           None \<Rightarrow> Inl (CalibrationSetUndefined 0)
         | Some p0 \<Rightarrow>
            (let originCoordinate =
                   \<lparr>longitude = num_sub (longitude (gps p0))
                                  (num_mul degreePerUnitX' (px (cartesian p0))),
                    latitude = num_sub (latitude (gps p0))
                                 (num_mul degreePerUnitY' (py (cartesian p0)))\<rparr>;
                 oppositeCoordinate =
                   \<lparr>longitude = num_add (longitude originCoordinate)
                                  (num_mul (width normalizedDimensions) degreePerUnitX'),
                    latitude = num_add (latitude originCoordinate)
                                 (num_mul (height normalizedDimensions) degreePerUnitY')\<rparr>;
                 topLeft = topLeftCoordinate originCoordinate normalizedDimensions degreePerUnitY';
                 downRight = downRightCoordinate originCoordinate normalizedDimensions degreePerUnitX';
                 diagonal =
                   Math_sqrt (num_add
                     (Math_pow2 (num_mul (width normalizedDimensions) degreePerUnitX'))
                     (Math_pow2 (num_mul (height normalizedDimensions) degreePerUnitY')))
             in case maxDifferenceLoop scales (length calibrationSet)
                       degreePerUnitX' degreePerUnitY' 0
                       (\<lparr>degreePerUnitX = Num 0, degreePerUnitY = Num 0\<rparr>, - 1, - 1) of
                  Inl e \<Rightarrow> Inl e
                | Inr (scalesWithMaxDifference, indexX, indexY) \<Rightarrow>
                    Inr \<lparr>maxError =
                           \<lparr>ex = toFixed_Number 3
                                   (num_mul (num_div (degreePerUnitX scalesWithMaxDifference)
                                      diagonal) (Num 100)),
                            ey = toFixed_Number 3
                                   (num_mul (num_div (degreePerUnitY scalesWithMaxDifference)
                                      diagonal) (Num 100))\<rparr>,
                         origin = originCoordinate,
                         opposite = oppositeCoordinate\<rparr>))"

subsection \<open>isValidGPSInput\<close>

text \<open>
  \<^verbatim>\<open>input.indexOf(',')\<close> is the position of the first comma, or \<open>-1\<close>;
  \<^verbatim>\<open>input.split(',')\<close> cuts the text at every comma and keeps the empty fields.
\<close>

fun indexOf :: "string \<Rightarrow> char \<Rightarrow> int" where
  "indexOf [] c = - 1"
| "indexOf (d # ds) c =
     (if d = c then 0 else (let r = indexOf ds c in if r = - 1 then - 1 else r + 1))"

fun split :: "string \<Rightarrow> char \<Rightarrow> string list" where
  "split [] c = [[]]"
| "split (d # ds) c =
     (if d = c then [] # split ds c
      else (case split ds c of [] \<Rightarrow> [[d]] | f # fs \<Rightarrow> (d # f) # fs))"

text \<open>
  An element read past the end of the array is \<^verbatim>\<open>undefined\<close>, and a relational
  comparison converts \<^verbatim>\<open>undefined\<close> to NaN.
\<close>

definition element :: "number list \<Rightarrow> nat \<Rightarrow> number" where
  "element array i = (case array_get array i of None \<Rightarrow> NaN | Some v \<Rightarrow> v)"

text \<open>
  \<^verbatim>\<open>parseFloat\<close> is the language's own function, so \<^verbatim>\<open>isValidGPSInput\<close> takes it as a
  parameter; what is proved about the validation holds for every \<^verbatim>\<open>parseFloat\<close>.
\<close>

definition isValidGPSInput :: "(string \<Rightarrow> number) \<Rightarrow> string \<Rightarrow> bool" where
  "isValidGPSInput parseFloat input =
     (if indexOf input CHR '','' = - 1 then False
      else (let array = map (\<lambda>value. parseFloat value) (split input CHR '','');
                latitudeIndex = 0;
                longitudeIndex = 1
            in num_ge (element array latitudeIndex) (Num (- 90))
               \<and> num_le (element array latitudeIndex) (Num 90)
               \<and> num_ge (element array longitudeIndex) (Num (- 180))
               \<and> num_le (element array longitudeIndex) (Num 180)))"

text \<open>
  A model of \<^verbatim>\<open>parseFloat\<close> to run the validation on concrete texts: leading white space
  is skipped, then the longest prefix that is a decimal literal (a sign, then
  \<^verbatim>\<open>Infinity\<close> or digits with an optional fraction and exponent) is read, and a text
  with no such prefix is NaN. The value is the decimal value rounded to binary64. A
  character is a code unit below 256 here, so of the white space of the language the
  model knows the ASCII characters and the no-break space.
\<close>

definition is_digit :: "char \<Rightarrow> bool" where
  "is_digit c = (48 \<le> (of_char c :: nat) \<and> (of_char c :: nat) \<le> 57)"

definition is_space :: "char \<Rightarrow> bool" where
  "is_space c =
     (c = CHR '' '' \<or> (9 \<le> (of_char c :: nat) \<and> (of_char c :: nat) \<le> 13)
      \<or> (of_char c :: nat) = 160)"

definition digits_value :: "string \<Rightarrow> nat" where
  "digits_value ds = foldl (\<lambda>a d. 10 * a + ((of_char d :: nat) - 48)) 0 ds"

definition exponent_factor :: "string \<Rightarrow> real" where
  "exponent_factor r =
     (case r of
        [] \<Rightarrow> 1
      | e # r' \<Rightarrow>
          if e = CHR ''e'' \<or> e = CHR ''E'' then
            (let neg = (case r' of [] \<Rightarrow> False | s # _ \<Rightarrow> s = CHR ''-'');
                 r'' = (case r' of [] \<Rightarrow> [] | s # t \<Rightarrow>
                          if s = CHR ''-'' \<or> s = CHR ''+'' then t else r');
                 ds = takeWhile is_digit r''
             in if ds = [] then 1
                else if neg then 1 / 10 ^ digits_value ds else 10 ^ digits_value ds)
          else 1)"

definition parse_unsigned :: "string \<Rightarrow> number" where
  "parse_unsigned s =
     (if take 8 s = ''Infinity'' then PosInfinity
      else (let ip = takeWhile is_digit s; r1 = dropWhile is_digit s
            in case r1 of
                 [] \<Rightarrow> if ip = [] then NaN else binary64 (real (digits_value ip))
               | c # r2 \<Rightarrow>
                   if c = CHR ''.'' then
                     (let fp = takeWhile is_digit r2; r3 = dropWhile is_digit r2
                      in if ip = [] \<and> fp = [] then NaN
                         else binary64 ((real (digits_value ip)
                                          + real (digits_value fp) / 10 ^ length fp)
                                        * exponent_factor r3))
                   else if ip = [] then NaN
                   else binary64 (real (digits_value ip) * exponent_factor r1)))"

definition parseFloat :: "string \<Rightarrow> number" where
  "parseFloat string =
     (case dropWhile is_space string of
        [] \<Rightarrow> NaN
      | c # r \<Rightarrow>
          if c = CHR ''-'' then num_neg (parse_unsigned r)
          else if c = CHR ''+'' then parse_unsigned r
          else parse_unsigned (c # r))"

subsection \<open>The specification's terms\<close>

text \<open>
  The definitions of this subsection follow the words of the specification, not the
  source: the enumeration of the pairs, the mean, the running maximum, and the values the
  specification names in the steps of \<^verbatim>\<open>calibrate\<close>. The lemmas below relate the loops
  of the source to them.
\<close>

text \<open>
  One scale per pair \<open>i < j\<close>, in the order \<open>i = 0..n-2\<close>, \<open>j = i+1..n-1\<close>.
\<close>

definition pairScales :: "CalibratedPoint list \<Rightarrow> MapScale list" where
  "pairScales set' =
     concat (map (\<lambda>i. map (\<lambda>j. calculateScale (set' ! i) (set' ! j)) [i + 1..<length set'])
                 [0..<length set' - 1])"

text \<open>The mean of a sequence: its sum, taken from the left starting at 0, over its length.\<close>

definition sum_numbers :: "number list \<Rightarrow> number" where
  "sum_numbers xs = foldl num_add (Num 0) xs"

definition mean :: "number list \<Rightarrow> number" where
  "mean xs = num_div (sum_numbers xs) (Num (real (length xs)))"

text \<open>
  Tracking a maximum: a value replaces the current one when it is strictly greater, so
  NaN never does.
\<close>

definition keepGreater :: "number \<Rightarrow> number \<Rightarrow> number" where
  "keepGreater m d = (if num_gt d m then d else m)"

definition trackMax :: "number \<Rightarrow> number list \<Rightarrow> number" where
  "trackMax m ds = foldl keepGreater m ds"

text \<open>Steps 3 to 6 of the specification's algorithm.\<close>

definition spec_average :: "CalibratedPoint list \<Rightarrow> MapScale" where
  "spec_average set' =
     \<lparr>degreePerUnitX = mean (map degreePerUnitX (pairScales set')),
      degreePerUnitY = mean (map degreePerUnitY (pairScales set'))\<rparr>"

definition spec_origin :: "CalibratedPoint list \<Rightarrow> GPSPoint" where
  "spec_origin set' =
     \<lparr>longitude = num_sub (longitude (gps (set' ! 0)))
                    (num_mul (degreePerUnitX (spec_average set')) (px (cartesian (set' ! 0)))),
      latitude = num_sub (latitude (gps (set' ! 0)))
                   (num_mul (degreePerUnitY (spec_average set')) (py (cartesian (set' ! 0))))\<rparr>"

definition spec_opposite :: "CalibratedPoint list \<Rightarrow> Dimensions \<Rightarrow> GPSPoint" where
  "spec_opposite set' dims =
     \<lparr>longitude = num_add (longitude (spec_origin set'))
                    (num_mul (width (normalizeImageDimensions dims))
                       (degreePerUnitX (spec_average set'))),
      latitude = num_add (latitude (spec_origin set'))
                   (num_mul (height (normalizeImageDimensions dims))
                      (degreePerUnitY (spec_average set')))\<rparr>"

definition spec_diagonal :: "CalibratedPoint list \<Rightarrow> Dimensions \<Rightarrow> number" where
  "spec_diagonal set' dims =
     Math_sqrt (num_add
       (Math_pow2 (num_mul (width (normalizeImageDimensions dims))
          (degreePerUnitX (spec_average set'))))
       (Math_pow2 (num_mul (height (normalizeImageDimensions dims))
          (degreePerUnitY (spec_average set')))))"

definition spec_maxXDiff :: "CalibratedPoint list \<Rightarrow> number" where
  "spec_maxXDiff set' =
     trackMax (Num 0)
       (map (\<lambda>i. Math_abs (num_sub (degreePerUnitX (pairScales set' ! i))
                              (degreePerUnitX (spec_average set'))))
            [0..<length set'])"

definition spec_maxYDiff :: "CalibratedPoint list \<Rightarrow> number" where
  "spec_maxYDiff set' =
     trackMax (Num 0)
       (map (\<lambda>i. Math_abs (num_sub (degreePerUnitY (pairScales set' ! i))
                              (degreePerUnitY (spec_average set'))))
            [0..<length set'])"

definition spec_percentage :: "number \<Rightarrow> number \<Rightarrow> number" where
  "spec_percentage maxDiff diagonal = toFixed_Number 3 (num_mul (num_div maxDiff diagonal) (Num 100))"

text \<open>
  The first two comma-separated fields of a text, and a number lying in a closed range.
\<close>

definition first_field :: "string \<Rightarrow> string" where
  "first_field input = takeWhile (\<lambda>c. c \<noteq> CHR '','') input"

definition second_field :: "string \<Rightarrow> string" where
  "second_field input =
     takeWhile (\<lambda>c. c \<noteq> CHR '','') (tl (dropWhile (\<lambda>c. c \<noteq> CHR '','') input))"

definition in_range :: "real \<Rightarrow> real \<Rightarrow> number \<Rightarrow> bool" where
  "in_range lo hi v = (case v of Num a \<Rightarrow> lo \<le> a \<and> a \<le> hi | _ \<Rightarrow> False)"

text \<open>
  A point all of whose coordinates are finite, and the quotient of two finite differences
  as IEEE division gives it.
\<close>

definition finitePoint :: "real \<Rightarrow> real \<Rightarrow> real \<Rightarrow> real \<Rightarrow> CalibratedPoint" where
  "finitePoint x y lat lon =
     \<lparr>cartesian = \<lparr>px = Num x, py = Num y\<rparr>, gps = \<lparr>longitude = Num lon, latitude = Num lat\<rparr>\<rparr>"

definition finite_quotient :: "real \<Rightarrow> real \<Rightarrow> number" where
  "finite_quotient delta units =
     (if units \<noteq> 0 then Num (delta / units)
      else if delta = 0 then NaN
      else if 0 < delta then PosInfinity else NegInfinity)"

subsection \<open>Concrete inputs\<close>

text \<open>
  Calibration sets and images on which the theorems are evaluated: a survey of four points
  with one inconsistent longitude, a consistent set of three points, a grid of four
  points, three points that share one GPS position, the two-point scenario of the
  specification, and another pair of points. The coordinates of the consistent set and of
  the grid are dyadic, and so is every intermediate value of \<^verbatim>\<open>calibrate\<close> on them up to
  the maximal differences and the diagonal: there the exact operations and the
  operations on doubles give the same values.
\<close>

definition surveySet :: "CalibratedPoint list" where
  "surveySet =
     [finitePoint 0 0 1.2345678 0, finitePoint 100 100 4.8345678 3,
      finitePoint 200 200 8.4345678 10, finitePoint 400 400 15.6345678 0]"

definition squareImage :: Dimensions where
  "squareImage = \<lparr>width = Num 500, height = Num 500\<rparr>"

definition surveyResult :: CalibrationResult where
  "surveyResult =
     \<lparr>maxError = \<lparr>ex = Num 0.282, ey = Num 0\<rparr>,
      origin = \<lparr>longitude = Num 0, latitude = Num 1.2345678\<rparr>,
      opposite = \<lparr>longitude = Num 7.5, latitude = Num 19.2345678\<rparr>\<rparr>"

definition wideImage :: Dimensions where
  "wideImage = \<lparr>width = Num 1000, height = Num 500\<rparr>"

definition consistentSet :: "CalibratedPoint list" where
  "consistentSet =
     [finitePoint 0 0 40 (- 74), finitePoint 64 128 44 (- 72.5),
      finitePoint 192 64 42 (- 69.5)]"

definition consistentResult :: CalibrationResult where
  "consistentResult =
     \<lparr>maxError = \<lparr>ex = Num 0, ey = Num 0\<rparr>,
      origin = \<lparr>longitude = Num (- 74), latitude = Num 40\<rparr>,
      opposite = \<lparr>longitude = Num (- 62.28125), latitude = Num 55.625\<rparr>\<rparr>"



definition coincidentSet :: "CalibratedPoint list" where
  "coincidentSet =
     [finitePoint 0 0 40 (- 74), finitePoint 100 200 40 (- 74), finitePoint 300 100 40 (- 74)]"

definition coincidentResult :: CalibrationResult where
  "coincidentResult =
     \<lparr>maxError = \<lparr>ex = NaN, ey = NaN\<rparr>,
      origin = \<lparr>longitude = Num (- 74), latitude = Num 40\<rparr>,
      opposite = \<lparr>longitude = Num (- 74), latitude = Num 40\<rparr>\<rparr>"

definition scenarioSet :: "CalibratedPoint list" where
  "scenarioSet = [finitePoint 0 0 40 (- 74), finitePoint 500 500 40.01 (- 73.99)]"

definition twoPointSet :: "CalibratedPoint list" where
  "twoPointSet = [finitePoint 100 50 40 (- 74), finitePoint 400 350 40.3 (- 73.7)]"

section \<open>The loops of calibrate\<close>

subsection \<open>The pair loops enumerate the pairs\<close>

lemma scalesInner_eq:
  "j \<le> length cs \<Longrightarrow>
   scalesInner cs i j acc = acc @ map (\<lambda>j. calculateScale (cs ! i) (cs ! j)) [j..<length cs]"
proof (induction cs i j acc rule: scalesInner.induct)
  case (1 cs i j acc)
  show ?case
  proof (cases "j < length cs")
    case True
    then have "scalesInner cs i j acc =
        scalesInner cs i (j + 1) (acc @ [calculateScale (cs ! i) (cs ! j)])"
      by (subst scalesInner.simps) simp
    also have "\<dots> = (acc @ [calculateScale (cs ! i) (cs ! j)])
        @ map (\<lambda>j. calculateScale (cs ! i) (cs ! j)) [j + 1..<length cs]"
      using True by (intro "1.IH") simp_all
    finally show ?thesis using True by (simp add: upt_conv_Cons)
  next
    case False
    with "1.prems" show ?thesis by (subst scalesInner.simps) simp
  qed
qed

lemma scalesOuter_eq:
  "scalesOuter cs i acc =
     acc @ concat (map (\<lambda>i. map (\<lambda>j. calculateScale (cs ! i) (cs ! j)) [i + 1..<length cs])
                       [i..<length cs - 1])"
proof (induction cs i acc rule: scalesOuter.induct)
  case (1 cs i acc)
  show ?case
  proof (cases "int i < int (length cs) - 1")
    case True
    then have lt: "i < length cs - 1" by linarith
    have "scalesOuter cs i acc = scalesOuter cs (i + 1) (scalesInner cs i (i + 1) acc)"
      using True by (subst scalesOuter.simps) simp
    also have "\<dots> = scalesInner cs i (i + 1) acc
        @ concat (map (\<lambda>i. map (\<lambda>j. calculateScale (cs ! i) (cs ! j)) [i + 1..<length cs])
                       [i + 1..<length cs - 1])"
      using True by (rule "1.IH")
    also have "scalesInner cs i (i + 1) acc =
        acc @ map (\<lambda>j. calculateScale (cs ! i) (cs ! j)) [i + 1..<length cs]"
      using lt by (intro scalesInner_eq) simp
    finally show ?thesis using lt by (simp add: upt_conv_Cons)
  next
    case False
    then have "\<not> i < length cs - 1" by linarith
    with False show ?thesis by (subst scalesOuter.simps) simp
  qed
qed

lemma scalesOuter_pairScales: "scalesOuter cs 0 [] = pairScales cs"
  by (simp add: scalesOuter_eq pairScales_def)

lemma triangle_sum:
  "m \<le> n \<Longrightarrow> 2 * (\<Sum>i\<leftarrow>[0..<m]. n - Suc i) + (n - m) * (n - m - 1) = n * (n - 1)"
proof (induction m)
  case 0
  then show ?case by simp
next
  case (Suc m)
  then obtain k where n: "n = Suc m + k" by (metis le_Suc_ex)
  have "2 * (\<Sum>i\<leftarrow>[0..<m]. n - Suc i) + (n - m) * (n - m - 1) = n * (n - 1)"
    using Suc by simp
  moreover have "(n - m) * (n - m - 1) = 2 * k + k * (k - 1)"
    unfolding n by (cases k) (simp_all add: algebra_simps)
  moreover have "n - Suc m = k" "n - Suc m - 1 = k - 1" unfolding n by simp_all
  ultimately show ?case by simp
qed

lemma length_pairScales: "length (pairScales cs) = length cs * (length cs - 1) div 2"
proof -
  let ?n = "length cs"
  have "length (pairScales cs) = (\<Sum>i\<leftarrow>[0..<?n - 1]. ?n - Suc i)"
    by (simp add: pairScales_def length_concat comp_def)
  moreover have "2 * (\<Sum>i\<leftarrow>[0..<?n - 1]. ?n - Suc i) + (?n - (?n - 1)) * (?n - (?n - 1) - 1)
      = ?n * (?n - 1)"
    by (rule triangle_sum) simp
  moreover have "(?n - (?n - 1)) * (?n - (?n - 1) - 1) = 0" by (cases ?n) simp_all
  ultimately show ?thesis by simp
qed

lemma pairs_cover_indices: "3 \<le> n \<longleftrightarrow> 0 < n \<and> n \<le> n * (n - 1) div 2" for n :: nat
proof
  assume "3 \<le> n"
  then have "n * 2 \<le> n * (n - 1)" by (intro mult_le_mono2) simp
  then have "(n * 2) div 2 \<le> n * (n - 1) div 2" by (rule div_le_mono)
  then show "0 < n \<and> n \<le> n * (n - 1) div 2" using \<open>3 \<le> n\<close> by simp
next
  assume a: "0 < n \<and> n \<le> n * (n - 1) div 2"
  show "3 \<le> n"
  proof (rule ccontr)
    assume "\<not> 3 \<le> n"
    then have "n = 0 \<or> n = 1 \<or> n = 2" by arith
    with a show False by auto
  qed
qed

subsection \<open>The averaging loop and the error loop\<close>

lemma scaleSums_eq:
  "scaleSums scales i (a, b) =
     (foldl num_add a (map degreePerUnitX (drop i scales)),
      foldl num_add b (map degreePerUnitY (drop i scales)))"
proof (induction scales i "(a, b)" arbitrary: a b rule: scaleSums.induct)
  case (1 scales i a b)
  show ?case
  proof (cases "i < length scales")
    case True
    have "scaleSums scales i (a, b) =
        scaleSums scales (i + 1)
          (num_add a (degreePerUnitX (scales ! i)), num_add b (degreePerUnitY (scales ! i)))"
      using True by (subst scaleSums.simps) simp
    also have "\<dots> =
        (foldl num_add (num_add a (degreePerUnitX (scales ! i)))
           (map degreePerUnitX (drop (i + 1) scales)),
         foldl num_add (num_add b (degreePerUnitY (scales ! i)))
           (map degreePerUnitY (drop (i + 1) scales)))"
      using True by (rule "1.hyps")
    finally show ?thesis
      using True by (simp flip: Cons_nth_drop_Suc)
  next
    case False
    then show ?thesis by (subst scaleSums.simps) simp
  qed
qed

lemma maxDifferenceStep_X:
  "degreePerUnitX (fst (maxDifferenceStep s dx dy i st)) =
     keepGreater (degreePerUnitX (fst st)) (Math_abs (num_sub (degreePerUnitX s) dx))"
  by (cases st) (simp add: maxDifferenceStep_def keepGreater_def Let_def)

lemma maxDifferenceStep_Y:
  "degreePerUnitY (fst (maxDifferenceStep s dx dy i st)) =
     keepGreater (degreePerUnitY (fst st)) (Math_abs (num_sub (degreePerUnitY s) dy))"
  by (cases st) (simp add: maxDifferenceStep_def keepGreater_def Let_def)

lemma trackMax_Cons: "trackMax m (d # ds) = trackMax (keepGreater m d) ds"
  by (simp add: trackMax_def)

lemma maxDifferenceLoop_ok:
  "n \<le> length scales \<Longrightarrow>
   \<exists>st'. maxDifferenceLoop scales n dx dy i st = Inr st'
     \<and> degreePerUnitX (fst st') =
         trackMax (degreePerUnitX (fst st))
           (map (\<lambda>k. Math_abs (num_sub (degreePerUnitX (scales ! k)) dx)) [i..<n])
     \<and> degreePerUnitY (fst st') =
         trackMax (degreePerUnitY (fst st))
           (map (\<lambda>k. Math_abs (num_sub (degreePerUnitY (scales ! k)) dy)) [i..<n])"
proof (induction scales n dx dy i st rule: maxDifferenceLoop.induct)
  case (1 scales n dx dy i st)
  show ?case
  proof (cases "i < n")
    case True
    with "1.prems" have get: "array_get scales i = Some (scales ! i)"
      by (simp add: array_get_def)
    let ?st = "maxDifferenceStep (scales ! i) dx dy i st"
    have unfold: "maxDifferenceLoop scales n dx dy i st =
        maxDifferenceLoop scales n dx dy (i + 1) ?st"
      using True get by (subst maxDifferenceLoop.simps) simp
    from "1.IH" [OF True get "1.prems"] obtain st' where
      st': "maxDifferenceLoop scales n dx dy (i + 1) ?st = Inr st'"
        "degreePerUnitX (fst st') =
           trackMax (degreePerUnitX (fst ?st))
             (map (\<lambda>k. Math_abs (num_sub (degreePerUnitX (scales ! k)) dx)) [i + 1..<n])"
        "degreePerUnitY (fst st') =
           trackMax (degreePerUnitY (fst ?st))
             (map (\<lambda>k. Math_abs (num_sub (degreePerUnitY (scales ! k)) dy)) [i + 1..<n])"
      by blast
    have "[i..<n] = i # [i + 1..<n]" using True by (simp add: upt_conv_Cons)
    then show ?thesis
      using st' unfold
      by (simp add: maxDifferenceStep_X maxDifferenceStep_Y trackMax_Cons)
  next
    case False
    then show ?thesis by (subst maxDifferenceLoop.simps) (simp add: trackMax_def)
  qed
qed

lemma maxDifferenceLoop_undefined:
  "length scales < n \<Longrightarrow> i \<le> length scales \<Longrightarrow>
   maxDifferenceLoop scales n dx dy i st = Inl (ScalesUndefined (length scales))"
proof (induction scales n dx dy i st rule: maxDifferenceLoop.induct)
  case (1 scales n dx dy i st)
  show ?case
  proof (cases "i < length scales")
    case True
    then have get: "array_get scales i = Some (scales ! i)" by (simp add: array_get_def)
    have "i < n" using True "1.prems" by simp
    then have "maxDifferenceLoop scales n dx dy i st =
        maxDifferenceLoop scales n dx dy (i + 1) (maxDifferenceStep (scales ! i) dx dy i st)"
      using get by (subst maxDifferenceLoop.simps) simp
    also have "\<dots> = Inl (ScalesUndefined (length scales))"
      using True "1.prems" by (intro "1.IH" [OF \<open>i < n\<close> get]) simp_all
    finally show ?thesis .
  next
    case False
    with "1.prems" have "i = length scales" "i < n" by simp_all
    then show ?thesis by (subst maxDifferenceLoop.simps) (simp add: array_get_def)
  qed
qed

lemma scaleSums_sum_numbers:
  "scaleSums scales 0 (Num 0, Num 0) =
     (sum_numbers (map degreePerUnitX scales), sum_numbers (map degreePerUnitY scales))"
  by (simp add: scaleSums_eq sum_numbers_def)

lemma average_X:
  "num_div (sum_numbers (map degreePerUnitX (pairScales cs)))
     (Num (real (length (pairScales cs)))) = degreePerUnitX (spec_average cs)"
  by (simp add: spec_average_def mean_def)

lemma average_Y:
  "num_div (sum_numbers (map degreePerUnitY (pairScales cs)))
     (Num (real (length (pairScales cs)))) = degreePerUnitY (spec_average cs)"
  by (simp add: spec_average_def mean_def)

lemmas calibrate_unfold =
  calibrate_def Let_def scalesOuter_pairScales scaleSums_sum_numbers prod.case
  average_X average_Y

subsection \<open>What calibrate returns\<close>

text \<open>
  With three points or more there are at least as many pairs as points, the error loop
  stays inside \<open>scales\<close>, and \<^verbatim>\<open>calibrate\<close> returns the values of the specification's
  steps. With fewer, it raises: on \<^verbatim>\<open>calibrationSet[0]\<close> for the empty set, on
  \<^verbatim>\<open>scales[n - 1]\<close> for one or two points.
\<close>

lemma calibrate_result:
  assumes "3 \<le> length cs"
  shows "calibrate cs dims =
     Inr \<lparr>maxError = \<lparr>ex = spec_percentage (spec_maxXDiff cs) (spec_diagonal cs dims),
                       ey = spec_percentage (spec_maxYDiff cs) (spec_diagonal cs dims)\<rparr>,
          origin = spec_origin cs,
          opposite = spec_opposite cs dims\<rparr>"
proof -
  have cover: "length cs \<le> length (pairScales cs)"
    using assms pairs_cover_indices [of "length cs"] by (simp add: length_pairScales)
  have get0: "array_get cs 0 = Some (cs ! 0)"
    using assms by (cases cs) (simp_all add: array_get_def)
  let ?dx = "degreePerUnitX (spec_average cs)" and ?dy = "degreePerUnitY (spec_average cs)"
  let ?st = "(\<lparr>degreePerUnitX = Num 0, degreePerUnitY = Num 0\<rparr>, - 1 :: int, - 1 :: int)"
  from maxDifferenceLoop_ok [OF cover, of ?dx ?dy 0 ?st] obtain m ix iy where
    loop: "maxDifferenceLoop (pairScales cs) (length cs) ?dx ?dy 0 ?st = Inr (m, ix, iy)"
      "degreePerUnitX m = spec_maxXDiff cs" "degreePerUnitY m = spec_maxYDiff cs"
    by (auto simp: spec_maxXDiff_def spec_maxYDiff_def)
  show ?thesis
    unfolding calibrate_unfold
    by (simp add: get0 loop spec_origin_def spec_opposite_def spec_diagonal_def
        spec_percentage_def)
qed

lemma calibrate_undefined:
  assumes "length cs < 3"
  shows "calibrate cs dims =
     Inl (if cs = [] then CalibrationSetUndefined 0 else ScalesUndefined (length cs - 1))"
proof (cases "cs = []")
  case True
  then show ?thesis
    unfolding calibrate_unfold
    by (simp add: array_get_def)
next
  case False
  then have get0: "array_get cs 0 = Some (cs ! 0)" by (simp add: array_get_def)
  have "length cs \<noteq> 0" using False by simp
  with assms have n: "length cs = 1 \<or> length cs = 2" by linarith
  then have len: "length (pairScales cs) = length cs - 1"
    by (auto simp: length_pairScales)
  have "maxDifferenceLoop (pairScales cs) (length cs) dx dy 0 st
      = Inl (ScalesUndefined (length (pairScales cs)))" for dx dy st
    using n len by (intro maxDifferenceLoop_undefined) auto
  then show ?thesis
    unfolding calibrate_unfold
    using False by (simp add: get0 len)
qed

lemma calibrate_completes_iff: "(\<exists>r. calibrate cs dims = Inr r) \<longleftrightarrow> 3 \<le> length cs"
proof (cases "3 \<le> length cs")
  case True
  then show ?thesis by (simp add: calibrate_result)
next
  case False
  then have "length cs < 3" by simp
  from calibrate_undefined [OF this] False show ?thesis by simp
qed

lemma calibrate_Inr_result:
  assumes "calibrate cs dims = Inr r"
  shows "3 \<le> length cs"
    and "r = \<lparr>maxError = \<lparr>ex = spec_percentage (spec_maxXDiff cs) (spec_diagonal cs dims),
                            ey = spec_percentage (spec_maxYDiff cs) (spec_diagonal cs dims)\<rparr>,
               origin = spec_origin cs,
               opposite = spec_opposite cs dims\<rparr>"
proof -
  show n: "3 \<le> length cs" using assms calibrate_completes_iff by blast
  from calibrate_result [OF n, of dims] assms
  show "r = \<lparr>maxError = \<lparr>ex = spec_percentage (spec_maxXDiff cs) (spec_diagonal cs dims),
                            ey = spec_percentage (spec_maxYDiff cs) (spec_diagonal cs dims)\<rparr>,
               origin = spec_origin cs,
               opposite = spec_opposite cs dims\<rparr>"
    by simp
qed

subsection \<open>Rounding and signs\<close>

lemma toFixed_Number_idem: "toFixed_Number f (toFixed_Number f v) = toFixed_Number f v"
proof (cases v)
  case (Num a)
  show ?thesis
  proof (cases "10 ^ 21 \<le> \<bar>a\<bar>")
    case True
    with Num show ?thesis by simp
  next
    case False
    define n where "n = \<lfloor>\<bar>a\<bar> * 10 ^ f + 1 / 2\<rfloor>"
    define b where "b = sgn a * (of_int n / 10 ^ f)"
    have v': "toFixed_Number f v = Num b" using Num False by (simp add: b_def n_def)
    have "0 \<le> \<bar>a\<bar> * 10 ^ f + 1 / 2" by simp
    then have n0: "0 \<le> n" unfolding n_def by (simp only: zero_le_floor)
    have fl: "\<lfloor>of_int n + (1 / 2 :: real)\<rfloor> = n" by linarith
    have "sgn b * (of_int \<lfloor>\<bar>b\<bar> * 10 ^ f + 1 / 2\<rfloor> / 10 ^ f) = b"
    proof (cases "a = 0 \<or> n = 0")
      case True
      then have "b = 0" by (auto simp: b_def)
      then show ?thesis by simp
    next
      case False
      then have "a \<noteq> 0" "0 < n" using n0 by auto
      then have abs_b: "\<bar>b\<bar> = of_int n / 10 ^ f"
        by (simp add: b_def abs_mult abs_sgn_eq)
      have sgn_b: "sgn b = sgn a"
        using \<open>0 < n\<close> \<open>a \<noteq> 0\<close> by (simp add: b_def sgn_mult sgn_divide)
      show ?thesis
        unfolding abs_b sgn_b using fl by (simp add: b_def)
    qed
    then have "toFixed_Number f (Num b) = Num b" by simp
    with v' show ?thesis by simp
  qed
qed simp_all

lemma num_ge_Num: "num_ge (Num a) (Num b) \<longleftrightarrow> b \<le> a"
  by (auto simp: num_ge_def num_le_def)

lemma keepGreater_nonneg:
  "num_ge m (Num 0) \<Longrightarrow> num_ge (keepGreater m d) (Num 0)"
  by (cases m; cases d) (auto simp: keepGreater_def num_ge_def num_le_def num_gt_def)

lemma trackMax_nonneg: "num_ge m (Num 0) \<Longrightarrow> num_ge (trackMax m ds) (Num 0)"
  by (induction ds arbitrary: m) (simp_all add: trackMax_def keepGreater_nonneg)

lemma Math_sqrt_nonneg: "Math_sqrt v = NaN \<or> num_ge (Math_sqrt v) (Num 0)"
  by (cases v) (auto simp: num_ge_def num_le_def)

lemma toFixed_Number_nonneg:
  assumes "num_ge v (Num 0)"
  shows "num_ge (toFixed_Number f v) (Num 0)"
proof (cases v)
  case (Num a)
  with assms have a: "0 \<le> a" by (auto simp: num_ge_def num_le_def)
  have "0 \<le> \<bar>a\<bar> * 10 ^ f + 1 / 2" by simp
  then have "0 \<le> \<lfloor>\<bar>a\<bar> * 10 ^ f + 1 / 2\<rfloor>" by (simp only: zero_le_floor)
  then have pos: "0 \<le> sgn a * (of_int \<lfloor>\<bar>a\<bar> * 10 ^ f + 1 / 2\<rfloor> / 10 ^ f)"
    using a by (intro mult_nonneg_nonneg divide_nonneg_nonneg) simp_all
  define b where "b = sgn a * (of_int \<lfloor>\<bar>a\<bar> * 10 ^ f + 1 / 2\<rfloor> / 10 ^ f)"
  have "toFixed_Number f v = (if 10 ^ 21 \<le> \<bar>a\<bar> then Num a else Num b)"
    using Num by (simp add: b_def)
  moreover have "0 \<le> b" unfolding b_def by (rule pos)
  then have "num_ge (Num a) (Num 0)" "num_ge (Num b) (Num 0)"
    using a by (simp_all add: num_ge_Num)
  ultimately show ?thesis by simp
qed (use assms in simp_all)

lemma ratio_nonneg:
  assumes "num_ge m (Num 0)" and "d = NaN \<or> num_ge d (Num 0)"
  shows "num_mul (num_div m d) (Num 100) = NaN
         \<or> num_ge (num_mul (num_div m d) (Num 100)) (Num 0)"
  using assms
  by (cases m; cases d) (auto simp: num_ge_def num_le_def signed_infinity_def)

lemma ratio_nonneg_finite:
  assumes "num_ge m (Num 0)" and "0 < d"
  shows "num_ge (num_mul (num_div m (Num d)) (Num 100)) (Num 0)"
  using assms
  by (cases m) (auto simp: num_ge_def num_le_def signed_infinity_def)

lemma percentage_nonneg:
  assumes "num_ge m (Num 0)" and "d = NaN \<or> num_ge d (Num 0)"
  shows "spec_percentage m d = NaN \<or> num_ge (spec_percentage m d) (Num 0)"
  using ratio_nonneg [OF assms] toFixed_Number_nonneg [of _ 3]
  by (auto simp: spec_percentage_def)

lemma percentage_nonneg_finite:
  assumes "num_ge m (Num 0)" and "0 < d"
  shows "num_ge (spec_percentage m (Num d)) (Num 0)"
  unfolding spec_percentage_def
  by (rule toFixed_Number_nonneg) (rule ratio_nonneg_finite [OF assms])

lemma spec_maxXDiff_nonneg: "num_ge (spec_maxXDiff cs) (Num 0)"
  unfolding spec_maxXDiff_def by (rule trackMax_nonneg) (simp add: num_ge_def num_le_def)

lemma spec_maxYDiff_nonneg: "num_ge (spec_maxYDiff cs) (Num 0)"
  unfolding spec_maxYDiff_def by (rule trackMax_nonneg) (simp add: num_ge_def num_le_def)

lemma spec_diagonal_nonneg:
  "spec_diagonal cs dims = NaN \<or> num_ge (spec_diagonal cs dims) (Num 0)"
  unfolding spec_diagonal_def by (rule Math_sqrt_nonneg)

lemma trackMax_zeros:
  "\<forall>d \<in> set ds. d = Num 0 \<or> d = NaN \<Longrightarrow> trackMax (Num 0) ds = Num 0"
  by (induction ds) (auto simp: trackMax_def keepGreater_def num_gt_def)

lemma self_difference: "Math_abs (num_sub v v) = Num 0 \<or> Math_abs (num_sub v v) = NaN"
  by (cases v) (simp_all add: num_sub_def)





lemma percentage_zero: "d \<noteq> 0 \<Longrightarrow> spec_percentage (Num 0) (Num d) = Num 0"
  by (simp add: spec_percentage_def)

subsection \<open>Rounding to binary64\<close>

text \<open>
  The exponent search brackets its argument, so a positive whole number below \<open>2 ^ 53\<close>
  is a double: rounding leaves it as it is.
\<close>

lemma exponent_up_props:
  "k \<le> exponent_up x k \<and> x < 2 ^ exponent_up x k
   \<and> (k < exponent_up x k \<longrightarrow> 2 ^ (exponent_up x k - 1) \<le> x)"
proof (induction x k rule: exponent_up.induct)
  case (1 x k)
  show ?case
  proof (cases "x < 2 ^ k")
    case True
    then have "exponent_up x k = k" by (subst exponent_up.simps) simp
    with True show ?thesis by simp
  next
    case False
    then have eq: "exponent_up x k = exponent_up x (k + 1)"
      by (subst exponent_up.simps) simp
    from "1.IH" [OF False] have ih: "k + 1 \<le> exponent_up x (k + 1)"
      "x < 2 ^ exponent_up x (k + 1)"
      "k + 1 < exponent_up x (k + 1) \<longrightarrow> 2 ^ (exponent_up x (k + 1) - 1) \<le> x"
      by simp_all
    show ?thesis
    proof (cases "k + 1 < exponent_up x (k + 1)")
      case True
      with ih show ?thesis unfolding eq by simp
    next
      case False
      with ih(1) have "exponent_up x (k + 1) = k + 1" by simp
      with ih \<open>\<not> x < 2 ^ k\<close> show ?thesis unfolding eq by simp
    qed
  qed
qed

lemma round_half_even_of_int: "round_half_even (of_int z) = z"
  by (simp add: round_half_even_def)

lemma binary64_of_nat:
  assumes "0 < n" and "n < 2 ^ 53"
  shows "binary64 (real n) = Num (real n)"
proof -
  let ?k = "exponent_up (real n) 0"
  have one: "1 \<le> real n" using assms(1) by simp
  have n53: "real n < 2 ^ 53"
  proof -
    have "real n < real (2 ^ 53)" using assms(2) by (simp only: of_nat_less_iff)
    then show ?thesis by simp
  qed
  from exponent_up_props [of 0 "real n"] have up: "real n < 2 ^ ?k"
    and low: "0 < ?k \<longrightarrow> 2 ^ (?k - 1) \<le> real n" by simp_all
  have kpos: "0 < ?k"
  proof (rule ccontr)
    assume "\<not> 0 < ?k"
    then have "?k = 0" by simp
    with up one show False by simp
  qed
  with low have "(2::real) ^ (?k - 1) \<le> real n" by simp
  with n53 have "(2::real) ^ (?k - 1) < 2 ^ 53" by linarith
  then have "?k - 1 < 53" by (rule power_less_imp_less_exp [rotated]) simp
  then have k53: "?k \<le> 53" by simp
  define e where "e = int ?k - 1"
  have e: "binade \<bar>real n\<bar> = e" using one by (simp add: binade_def e_def)
  have e_range: "0 \<le> e" "e \<le> 52" using kpos k53 by (simp_all add: e_def)
  define s where "s = nat (52 - e)"
  have u: "pow2 (max e (- 1022) - 52) = 1 / 2 ^ s"
  proof (cases "e = 52")
    case True
    then show ?thesis by (simp add: pow2_def s_def)
  next
    case False
    with e_range have "e - 52 < 0" by simp
    then show ?thesis using e_range by (simp add: pow2_def s_def max_def)
  qed
  have q: "\<bar>real n\<bar> / (1 / 2 ^ s) = of_int (int n * 2 ^ s)" by simp
  have y: "of_int (round_half_even (\<bar>real n\<bar> / (1 / 2 ^ s))) * (1 / 2 ^ s) = real n"
    unfolding q round_half_even_of_int by simp
  have small: "\<not> (1024 \<le> max e (- 1022)
      \<or> (max e (- 1022) = 1023 \<and> round_half_even (\<bar>real n\<bar> / (1 / 2 ^ s)) = 2 ^ 53))"
    using e_range by simp
  have nz: "real n \<noteq> 0" and sg: "sgn (real n) = 1" using assms(1) by simp_all
  have "binary64 (real n) = Num (sgn (real n) * real n)"
    unfolding binary64_def Let_def e u y using nz small by (simp only: if_False)
  then show ?thesis using sg by simp
qed

lemma binary64_500: "binary64 500 = Num 500"
  using binary64_of_nat [of 500] by simp

subsection \<open>Texts and their fields\<close>

lemma indexOf_bounds: "- 1 \<le> indexOf s c \<and> (indexOf s c = - 1 \<longleftrightarrow> c \<notin> set s)"
  by (induction s) (auto simp: Let_def)

lemma indexOf_absent: "indexOf s c = - 1 \<longleftrightarrow> c \<notin> set s"
  using indexOf_bounds by blast

lemma split_first: "\<exists>rest. split s c = takeWhile (\<lambda>d. d \<noteq> c) s # rest"
  by (induction s) (auto split: list.splits)

lemma split_two_fields:
  "c \<in> set s \<Longrightarrow>
   \<exists>rest. split s c =
     takeWhile (\<lambda>d. d \<noteq> c) s # takeWhile (\<lambda>d. d \<noteq> c) (tl (dropWhile (\<lambda>d. d \<noteq> c) s)) # rest"
proof (induction s)
  case Nil
  then show ?case by simp
next
  case (Cons d ds)
  show ?case
  proof (cases "d = c")
    case True
    then show ?thesis using split_first [of ds c] by auto
  next
    case False
    with Cons.prems have "c \<in> set ds" by simp
    from Cons.IH [OF this] False show ?thesis by auto
  qed
qed

lemma bounds_in_range:
  "(num_ge v (Num lo) \<and> num_le v (Num hi)) = in_range lo hi v"
  by (cases v) (auto simp: num_ge_def num_le_def in_range_def)

subsection \<open>calibrate on the concrete inputs\<close>

lemma sqrt_survey: "sqrt (1521 / 4) = 39 / 2"
  by (rule real_sqrt_unique) (simp_all add: power2_eq_square)

lemma surveySet_diagonal: "spec_diagonal surveySet squareImage = Num (39 / 2)"
proof -
  have av: "spec_average surveySet =
      \<lparr>degreePerUnitX = Num (3 / 200), degreePerUnitY = Num (9 / 250)\<rparr>"
    by code_simp
  have nd: "normalizeImageDimensions squareImage = squareImage" by code_simp
  show ?thesis
    unfolding spec_diagonal_def av nd
    by (simp add: squareImage_def power2_eq_square sqrt_survey)
qed

lemma calibrate_surveySet: "calibrate surveySet squareImage = Inr surveyResult"
proof -
  have n: "3 \<le> length surveySet" by (simp add: surveySet_def)
  have mx: "spec_maxXDiff surveySet = Num (11 / 200)" by code_simp
  have my: "spec_maxYDiff surveySet = Num 0" by code_simp
  have og: "spec_origin surveySet = \<lparr>longitude = Num 0, latitude = Num 1.2345678\<rparr>"
    by code_simp
  have op: "spec_opposite surveySet squareImage =
      \<lparr>longitude = Num 7.5, latitude = Num 19.2345678\<rparr>"
    by code_simp
  have px: "spec_percentage (Num (11 / 200)) (Num (39 / 2)) = Num 0.282" by code_simp
  have py: "spec_percentage (Num 0) (Num (39 / 2)) = Num 0" by code_simp
  show ?thesis
    unfolding calibrate_result [OF n] mx my og op surveySet_diagonal px py surveyResult_def ..
qed

lemma sqrt_consistent: "sqrt (390625 / 1024) = 625 / 32"
  by (rule real_sqrt_unique) (simp_all add: power2_eq_square)

lemma consistentSet_average:
  "spec_average consistentSet =
     \<lparr>degreePerUnitX = Num (3 / 128), degreePerUnitY = Num (1 / 32)\<rparr>"
  by code_simp

lemma consistentSet_diagonal: "spec_diagonal consistentSet squareImage = Num (625 / 32)"
proof -
  have nd: "normalizeImageDimensions squareImage = squareImage" by code_simp
  show ?thesis
    unfolding spec_diagonal_def consistentSet_average nd
    by (simp add: squareImage_def power2_eq_square sqrt_consistent)
qed

lemma calibrate_consistentSet: "calibrate consistentSet squareImage = Inr consistentResult"
proof -
  have n: "3 \<le> length consistentSet" by (simp add: consistentSet_def)
  have mx: "spec_maxXDiff consistentSet = Num 0" by code_simp
  have my: "spec_maxYDiff consistentSet = Num 0" by code_simp
  have og: "spec_origin consistentSet = \<lparr>longitude = Num (- 74), latitude = Num 40\<rparr>"
    by code_simp
  have op: "spec_opposite consistentSet squareImage =
      \<lparr>longitude = Num (- 62.28125), latitude = Num 55.625\<rparr>"
    by code_simp
  have pc: "spec_percentage (Num 0) (Num (625 / 32)) = Num 0" by code_simp
  show ?thesis
    unfolding calibrate_result [OF n] mx my og op consistentSet_diagonal pc
      consistentResult_def ..
qed





lemma calibrate_coincidentSet: "calibrate coincidentSet wideImage = Inr coincidentResult"
proof -
  have n: "3 \<le> length coincidentSet" by (simp add: coincidentSet_def)
  have av: "spec_average coincidentSet =
      \<lparr>degreePerUnitX = Num 0, degreePerUnitY = Num 0\<rparr>"
    by code_simp
  have nd: "normalizeImageDimensions wideImage = \<lparr>width = Num 500, height = Num 250\<rparr>"
    by code_simp
  have mx: "spec_maxXDiff coincidentSet = Num 0" by code_simp
  have my: "spec_maxYDiff coincidentSet = Num 0" by code_simp
  have og: "spec_origin coincidentSet = \<lparr>longitude = Num (- 74), latitude = Num 40\<rparr>"
    by code_simp
  have op: "spec_opposite coincidentSet wideImage =
      \<lparr>longitude = Num (- 74), latitude = Num 40\<rparr>"
    by code_simp
  have dg: "spec_diagonal coincidentSet wideImage = Num 0"
    unfolding spec_diagonal_def av nd by simp
  have pc: "spec_percentage (Num 0) (Num 0) = NaN" by code_simp
  show ?thesis
    unfolding calibrate_result [OF n] mx my og op dg pc coincidentResult_def ..
qed

section \<open>The claims\<close>

subsection \<open>C1: what calibrate computes from at least two points\<close>

text \<open>
  C1 says that for every calibration set of at least two points \<^verbatim>\<open>calibrate\<close> returns the
  mean of all pair scales, the origin anchored at the first point and the opposite corner.
  With three points or more it does (lemma \<open>calibrate_result\<close>). With exactly two points
  there is one pair scale, the error loop reads \<^verbatim>\<open>scales[1]\<close>, and the call raises
  before any result is returned; the theorem evaluates the source at such a set.
\<close>

theorem calibrate_two_points_raises:
  "calibrate twoPointSet wideImage = Inl (ScalesUndefined 1)"
  using calibrate_undefined [of twoPointSet wideImage] by (simp add: twoPointSet_def)

subsection \<open>C2: the error estimate\<close>



subsection \<open>C3: the error loop is in bounds from three points on\<close>

text \<open>
  C3: the sequence of pair scales has length \<open>n (n - 1) / 2\<close> and the error loop reads it
  at every index below \<open>n\<close>. \<^verbatim>\<open>calibrate\<close> returns a result if and only if \<open>n \<ge> 3\<close>. For
  a non-empty set, every read of the loop is in bounds if and only if \<open>n \<ge> 3\<close> (for the
  empty set the loop does not run, and the call has already failed on
  \<^verbatim>\<open>calibrationSet[0]\<close>). For exactly two points \<^verbatim>\<open>scales[1]\<close> is past the end and the
  call raises there.
\<close>

theorem calibrate_safe_from_three:
  "length (scalesOuter cs 0 []) = length cs * (length cs - 1) div 2
   \<and> ((\<exists>r. calibrate cs dims = Inr r) \<longleftrightarrow> 3 \<le> length cs)
   \<and> (cs \<noteq> [] \<longrightarrow>
        ((\<forall>i<length cs. array_get (scalesOuter cs 0 []) i \<noteq> None) \<longleftrightarrow> 3 \<le> length cs))
   \<and> (length cs = 2 \<longrightarrow>
        array_get (scalesOuter cs 0 []) 1 = None
        \<and> calibrate cs dims = Inl (ScalesUndefined 1))"
proof -
  let ?n = "length cs"
  have len: "length (scalesOuter cs 0 []) = ?n * (?n - 1) div 2"
    by (simp add: scalesOuter_pairScales length_pairScales)
  have bounds: "(\<forall>i<?n. array_get (scalesOuter cs 0 []) i \<noteq> None) \<longleftrightarrow> 3 \<le> ?n"
    if "cs \<noteq> []"
  proof -
    from that have pos: "0 < ?n" by simp
    have "(\<forall>i<?n. array_get (scalesOuter cs 0 []) i \<noteq> None)
        \<longleftrightarrow> (\<forall>i<?n. i < ?n * (?n - 1) div 2)"
      by (auto simp: array_get_def len)
    also have "\<dots> \<longleftrightarrow> ?n \<le> ?n * (?n - 1) div 2"
    proof
      assume a: "\<forall>i<?n. i < ?n * (?n - 1) div 2"
      from pos have "?n - 1 < ?n" by simp
      with a have "?n - 1 < ?n * (?n - 1) div 2" by blast
      with pos show "?n \<le> ?n * (?n - 1) div 2" by linarith
    qed auto
    also have "\<dots> \<longleftrightarrow> 3 \<le> ?n" using pos pairs_cover_indices [of ?n] by simp
    finally show ?thesis .
  qed
  have two: "array_get (scalesOuter cs 0 []) 1 = None
      \<and> calibrate cs dims = Inl (ScalesUndefined 1)" if "?n = 2"
    using that calibrate_undefined [of cs dims] by (auto simp: array_get_def len)
  show ?thesis using len calibrate_completes_iff bounds two by blast
qed

text \<open>C3 on a set of two points: one pair scale, and the read of index 1 raises.\<close>

theorem calibrate_safe_from_three_witness:
  "twoPointSet \<noteq> [] \<and> length twoPointSet = 2
   \<and> length (scalesOuter twoPointSet 0 []) = 1
   \<and> array_get (scalesOuter twoPointSet 0 []) 1 = None
   \<and> calibrate twoPointSet wideImage = Inl (ScalesUndefined 1)
   \<and> \<not> (\<exists>r. calibrate twoPointSet wideImage = Inr r)"
  using calibrate_safe_from_three [of twoPointSet wideImage]
  by (simp add: twoPointSet_def)

subsection \<open>C4: the two-point scenario\<close>

text \<open>
  C4 gives, for the scenario with the points \<open>(0, 0)\<close> and \<open>(500, 500)\<close> on a 500 by 500
  image, both scales \<open>0.00002\<close>, the origin \<open>(40.0, -74.0)\<close> and the opposite corner
  \<open>(40.01, -73.99)\<close>. The source computes these values (in exact arithmetic; the
  doubles differ from them in the last bits) and then raises in the error loop, on
  \<^verbatim>\<open>scales[1]\<close>, so none of them is returned.
\<close>

theorem calibrate_scenario_raises:
  "calibrate scenarioSet squareImage = Inl (ScalesUndefined 1)
   \<and> scalesOuter scenarioSet 0 [] =
       [\<lparr>degreePerUnitX = Num 0.00002, degreePerUnitY = Num 0.00002\<rparr>]
   \<and> spec_origin scenarioSet = \<lparr>longitude = Num (- 74), latitude = Num 40\<rparr>
   \<and> spec_opposite scenarioSet squareImage = \<lparr>longitude = Num (- 73.99), latitude = Num 40.01\<rparr>"
proof -
  have "calibrate scenarioSet squareImage = Inl (ScalesUndefined 1)"
    using calibrate_undefined [of scenarioSet squareImage] by (simp add: scenarioSet_def)
  moreover have
    "scalesOuter scenarioSet 0 [] =
       [\<lparr>degreePerUnitX = Num 0.00002, degreePerUnitY = Num 0.00002\<rparr>]"
    "spec_origin scenarioSet = \<lparr>longitude = Num (- 74), latitude = Num 40\<rparr>"
    "spec_opposite scenarioSet squareImage =
       \<lparr>longitude = Num (- 73.99), latitude = Num 40.01\<rparr>"
    by code_simp+
  ultimately show ?thesis by simp
qed

subsection \<open>C5: validation of a GPS text\<close>

text \<open>
  C5: for every text and every \<^verbatim>\<open>parseFloat\<close>, \<^verbatim>\<open>isValidGPSInput\<close> is false when the
  text has no comma; otherwise it is true exactly when the first field parses to a number
  in \<open>[-90, 90]\<close> and the second to a number in \<open>[-180, 180]\<close>. A field that parses to
  NaN makes the result false. The function has no failing branch: it is total and returns
  a boolean.
\<close>

theorem isValidGPSInput_fields:
  "isValidGPSInput pf input =
     (if CHR '','' \<in> set input
      then in_range (- 90) 90 (pf (first_field input))
           \<and> in_range (- 180) 180 (pf (second_field input))
      else False)
   \<and> (pf (first_field input) = NaN \<or> pf (second_field input) = NaN
        \<longrightarrow> \<not> isValidGPSInput pf input)"
proof -
  have main: "isValidGPSInput pf input =
     (if CHR '','' \<in> set input
      then in_range (- 90) 90 (pf (first_field input))
           \<and> in_range (- 180) 180 (pf (second_field input))
      else False)"
  proof (cases "CHR '','' \<in> set input")
    case False
    then show ?thesis by (simp add: isValidGPSInput_def indexOf_absent)
  next
    case True
    from split_two_fields [OF True] obtain rest where
      sp: "split input CHR '','' = first_field input # second_field input # rest"
      by (auto simp: first_field_def second_field_def)
    have "isValidGPSInput pf input =
        ((num_ge (pf (first_field input)) (Num (- 90))
          \<and> num_le (pf (first_field input)) (Num 90))
         \<and> (num_ge (pf (second_field input)) (Num (- 180))
          \<and> num_le (pf (second_field input)) (Num 180)))"
      using True
      by (simp add: isValidGPSInput_def indexOf_absent sp element_def array_get_def)
    then show ?thesis using True by (simp only: bounds_in_range if_True)
  qed
  moreover have "\<not> in_range lo hi NaN" for lo hi by (simp add: in_range_def)
  ultimately show ?thesis by auto
qed

text \<open>
  C5 on concrete texts: a valid pair, a first field that is not a number, a text without
  a comma, and a longitude out of range.
\<close>

theorem isValidGPSInput_fields_witness:
  "isValidGPSInput parseFloat ''40.5,-74.25'' \<and> \<not> isValidGPSInput parseFloat ''north,-74.25''
   \<and> parseFloat (first_field ''north,-74.25'') = NaN
   \<and> \<not> isValidGPSInput parseFloat ''40.5 -74.25'' \<and> \<not> isValidGPSInput parseFloat ''40.5,-274.25''"
proof -
  have "parseFloat (first_field ''40.5,-74.25'') = Num 40.5"
    "parseFloat (second_field ''40.5,-74.25'') = Num (- 74.25)"
    "parseFloat (first_field ''north,-74.25'') = NaN"
    "parseFloat (second_field ''40.5,-274.25'') = Num (- 274.25)"
    by code_simp+
  then show ?thesis
    using isValidGPSInput_fields [of parseFloat "''40.5,-74.25''"]
      isValidGPSInput_fields [of parseFloat "''north,-74.25''"]
      isValidGPSInput_fields [of parseFloat "''40.5 -74.25''"]
      isValidGPSInput_fields [of parseFloat "''40.5,-274.25''"]
    by (simp add: in_range_def)
qed

subsection \<open>C6: normalising positive dimensions\<close>

text \<open>
  C6 says that equal positive dimensions are normalised to exactly 500 by 500. The tie
  takes the second branch, whose width is \<open>(500 * w) / w\<close> in the arithmetic of doubles,
  and that is not always 500: for the double nearest to 1.1 the product \<open>500 * w\<close> rounds
  to 550, and 550 divided by that double rounds to \<open>500 - 2 ^ -44\<close>, which prints as
  499.99999999999994.
\<close>

theorem tie_not_always_square:
  "binary64 (11 / 10) = Num (2476979795053773 / 2251799813685248)
   \<and> normalizeImageDimensions \<lparr>width = binary64 (11 / 10), height = binary64 (11 / 10)\<rparr>
       = \<lparr>width = Num (8796093022207999 / 17592186044416), height = Num 500\<rparr>
   \<and> normalizeImageDimensions \<lparr>width = binary64 (11 / 10), height = binary64 (11 / 10)\<rparr>
       \<noteq> \<lparr>width = Num 500, height = Num 500\<rparr>"
proof -
  have w: "binary64 (11 / 10) = Num (2476979795053773 / 2251799813685248)" by code_simp
  have n: "normalizeImageDimensions
      \<lparr>width = Num (2476979795053773 / 2251799813685248),
       height = Num (2476979795053773 / 2251799813685248)\<rparr>
      = \<lparr>width = Num (8796093022207999 / 17592186044416), height = Num 500\<rparr>"
    by code_simp
  show ?thesis unfolding w n by simp
qed

text \<open>
  C6 as amended: for finite positive dimensions, a width greater than the height gives
  \<open>(500, 500 * height / width)\<close>, anything else, the tie included, gives
  \<open>(500 * width / height, 500)\<close>, each product and quotient being the operation on
  doubles. Equal dimensions give exactly \<open>(500, 500)\<close> whenever the product \<open>500 * w\<close> is
  computed without rounding, in particular for every whole number of pixels below
  \<open>2 ^ 53 / 500\<close>.
\<close>

theorem normalizeImageDimensions_positive:
  "0 < w \<Longrightarrow> 0 < h \<Longrightarrow>
   normalizeImageDimensions \<lparr>width = Num w, height = Num h\<rparr> =
     (if h < w
      then \<lparr>width = Num 500, height = div64 (mul64 (Num 500) (Num h)) (Num w)\<rparr>
      else \<lparr>width = div64 (mul64 (Num 500) (Num w)) (Num h), height = Num 500\<rparr>)
   \<and> (mul64 (Num 500) (Num w) = Num (500 * w) \<longrightarrow>
        normalizeImageDimensions \<lparr>width = Num w, height = Num w\<rparr>
          = \<lparr>width = Num 500, height = Num 500\<rparr>)
   \<and> (0 < n \<and> 500 * n < 2 ^ 53 \<longrightarrow>
        normalizeImageDimensions \<lparr>width = Num (real n), height = Num (real n)\<rparr>
          = \<lparr>width = Num 500, height = Num 500\<rparr>)"
proof -
  assume pos: "0 < w" "0 < h"
  have branch: "normalizeImageDimensions \<lparr>width = Num w, height = Num h\<rparr> =
     (if h < w
      then \<lparr>width = Num 500, height = div64 (mul64 (Num 500) (Num h)) (Num w)\<rparr>
      else \<lparr>width = div64 (mul64 (Num 500) (Num w)) (Num h), height = Num 500\<rparr>)"
    by (simp add: normalizeImageDimensions_def num_gt_def)
  have tie: "normalizeImageDimensions \<lparr>width = Num v, height = Num v\<rparr>
      = \<lparr>width = Num 500, height = Num 500\<rparr>"
    if "mul64 (Num 500) (Num v) = Num (500 * v)" and "0 < v" for v
  proof -
    have "div64 (Num (500 * v)) (Num v) = binary64 500"
      using that(2) by (simp add: div64_def round_finite_def)
    then show ?thesis
      by (simp add: normalizeImageDimensions_def num_gt_def that(1) binary64_500)
  qed
  have whole: "normalizeImageDimensions \<lparr>width = Num (real n), height = Num (real n)\<rparr>
      = \<lparr>width = Num 500, height = Num 500\<rparr>"
    if "0 < n \<and> 500 * n < 2 ^ 53"
  proof -
    from that have "binary64 (real (500 * n)) = Num (real (500 * n))"
      by (intro binary64_of_nat) simp_all
    then have "mul64 (Num 500) (Num (real n)) = Num (500 * real n)"
      by (simp add: mul64_def round_finite_def)
    then show ?thesis using that by (intro tie) simp_all
  qed
  from branch tie [of w] pos whole show ?thesis by blast
qed

text \<open>
  C6 as amended, on a 1000 by 500 image and on a 1000 by 1000 image.
\<close>

theorem normalizeImageDimensions_positive_witness:
  "(0::real) < 1000 \<and> (0::real) < 500
   \<and> mul64 (Num 500) (Num 1000) = Num (500 * 1000)
   \<and> (0::nat) < 1000 \<and> (500::nat) * 1000 < 2 ^ 53
   \<and> normalizeImageDimensions \<lparr>width = Num 1000, height = Num 500\<rparr> =
       \<lparr>width = Num 500, height = Num 250\<rparr>
   \<and> normalizeImageDimensions \<lparr>width = Num 1000, height = Num 1000\<rparr> =
       \<lparr>width = Num 500, height = Num 500\<rparr>"
proof -
  have m: "mul64 (Num 500) (Num 1000) = Num (500 * 1000)" by code_simp
  have q: "div64 (mul64 (Num 500) (Num 500)) (Num 1000) = Num 250" by code_simp
  from normalizeImageDimensions_positive [of 1000 500 1000] m q
  show ?thesis by simp
qed

subsection \<open>C7: the 500 by 500 image\<close>

text \<open>
  C7 says that a 500 by 500 image is normalised to \<open>(250, 500)\<close>. It is not: the tie
  takes the second branch, whose width is \<open>500 * 500 / 500\<close>.
\<close>

theorem square_image_not_halved:
  "normalizeImageDimensions \<lparr>width = Num 500, height = Num 500\<rparr>
     \<noteq> \<lparr>width = Num 250, height = Num 500\<rparr>"
  by code_simp

text \<open>C7 as amended: a 500 by 500 image is normalised to \<open>(500, 500)\<close>.\<close>

theorem square_image_stays_square:
  "normalizeImageDimensions \<lparr>width = Num 500, height = Num 500\<rparr>
     = \<lparr>width = Num 500, height = Num 500\<rparr>"
  by code_simp

subsection \<open>C8: what is rounded\<close>

text \<open>
  C8 says that the origin and the opposite corner of the result are rounded to six
  decimals. On the survey the latitude of the origin is \<open>1.2345678\<close>, which rounding to
  six decimals would change to \<open>1.234568\<close>; the opposite corner is not rounded either.
\<close>

theorem calibrate_origin_not_rounded:
  "calibrate surveySet squareImage = Inr surveyResult
   \<and> latitude (origin surveyResult) = Num 1.2345678
   \<and> toFixed_Number 6 (latitude (origin surveyResult)) = Num 1.234568
   \<and> toFixed_Number 6 (latitude (origin surveyResult)) \<noteq> latitude (origin surveyResult)
   \<and> toFixed_Number 6 (latitude (opposite surveyResult)) \<noteq> latitude (opposite surveyResult)"
proof -
  have "toFixed_Number 6 (Num 1.2345678) = Num 1.234568"
    "toFixed_Number 6 (Num 19.2345678) = Num 19.234568"
    by code_simp+
  then show ?thesis by (simp add: calibrate_surveySet surveyResult_def)
qed

text \<open>
  C8 as amended: whenever \<^verbatim>\<open>calibrate\<close> returns, \<^verbatim>\<open>maxError.x\<close> and \<^verbatim>\<open>maxError.y\<close> are
  rounded to three decimals (rounding them again changes nothing), and the origin and the
  opposite corner are the values of steps 4 and 5 as computed, without rounding.
\<close>

theorem calibrate_rounding:
  assumes "calibrate cs dims = Inr r"
  shows "toFixed_Number 3 (ex (maxError r)) = ex (maxError r)
    \<and> toFixed_Number 3 (ey (maxError r)) = ey (maxError r)
    \<and> origin r = spec_origin cs
    \<and> opposite r = spec_opposite cs dims"
  using calibrate_Inr_result(2) [OF assms]
  by (simp add: spec_percentage_def toFixed_Number_idem)

text \<open>C8 as amended, on the survey.\<close>

theorem calibrate_rounding_witness:
  "calibrate surveySet squareImage = Inr surveyResult
   \<and> toFixed_Number 3 (ex (maxError surveyResult)) = ex (maxError surveyResult)
   \<and> ex (maxError surveyResult) = Num 0.282
   \<and> origin surveyResult = spec_origin surveySet
   \<and> spec_origin surveySet = \<lparr>longitude = Num 0, latitude = Num 1.2345678\<rparr>
   \<and> opposite surveyResult = spec_opposite surveySet squareImage"
  using calibrate_rounding [OF calibrate_surveySet] calibrate_surveySet
  by (simp add: surveyResult_def)

subsection \<open>C9: the scale of a pair\<close>

text \<open>
  C9: \<^verbatim>\<open>calculateScale\<close> returns the quotient of the latitude difference by the
  difference of the \<open>y\<close> coordinates and the quotient of the longitude difference by the
  difference of the \<open>x\<close> coordinates, whatever the divisor. For finite points that share
  a coordinate the scale on that axis is NaN when the GPS values coincide too, and an
  infinity with the sign of the GPS difference otherwise; it is returned as it is.
\<close>

theorem calculateScale_unguarded:
  "degreePerUnitY (calculateScale p1 p2) =
     num_div (num_sub (latitude (gps p1)) (latitude (gps p2)))
             (num_sub (py (cartesian p1)) (py (cartesian p2)))
   \<and> degreePerUnitX (calculateScale p1 p2) =
     num_div (num_sub (longitude (gps p1)) (longitude (gps p2)))
             (num_sub (px (cartesian p1)) (px (cartesian p2)))
   \<and> calculateScale (finitePoint x1 y1 lat1 lon1) (finitePoint x2 y2 lat2 lon2) =
     \<lparr>degreePerUnitX = finite_quotient (lon1 - lon2) (x1 - x2),
      degreePerUnitY = finite_quotient (lat1 - lat2) (y1 - y2)\<rparr>"
  by (simp add: calculateScale_def finitePoint_def finite_quotient_def num_sub_def
      signed_infinity_def)

text \<open>
  C9 on two points with the same \<open>x\<close>: the scale on \<open>x\<close> is negative infinity, the one
  on \<open>y\<close> is finite; and on two points that coincide on the \<open>x\<close> axis altogether.
\<close>

theorem calculateScale_unguarded_witness:
  "calculateScale (finitePoint 100 50 40 (- 74)) (finitePoint 100 350 40.3 (- 73.7)) =
     \<lparr>degreePerUnitX = NegInfinity, degreePerUnitY = Num 0.001\<rparr>
   \<and> calculateScale (finitePoint 100 50 40 (- 74)) (finitePoint 100 350 40.3 (- 74)) =
     \<lparr>degreePerUnitX = NaN, degreePerUnitY = Num 0.001\<rparr>"
  using calculateScale_unguarded
      [of "finitePoint 100 50 40 (- 74)" "finitePoint 100 350 40.3 (- 73.7)"
          100 50 40 "- 74" 100 350 "40.3" "- 73.7"]
    calculateScale_unguarded
      [of "finitePoint 100 50 40 (- 74)" "finitePoint 100 350 40.3 (- 74)"
          100 50 40 "- 74" 100 350 "40.3" "- 74"]
  by (simp add: finite_quotient_def)

subsection \<open>C10: the sign of the error\<close>

text \<open>
  C10 says that both errors are at least 0 whenever \<^verbatim>\<open>calibrate\<close> returns, and 0 for a
  set whose pair scales are all equal. Three points with distinct pixel coordinates and
  one GPS position have all pair scales equal to 0; the diagonal is 0, the quotient is
  \<open>0 / 0\<close>, and both errors are NaN, which is neither at least 0 nor equal to 0.
\<close>

theorem calibrate_error_not_a_number:
  "calibrate coincidentSet wideImage = Inr coincidentResult
   \<and> pairScales coincidentSet = replicate 3 \<lparr>degreePerUnitX = Num 0, degreePerUnitY = Num 0\<rparr>
   \<and> \<not> num_ge (ex (maxError coincidentResult)) (Num 0)
   \<and> \<not> num_ge (ey (maxError coincidentResult)) (Num 0)
   \<and> ex (maxError coincidentResult) \<noteq> Num 0 \<and> ey (maxError coincidentResult) \<noteq> Num 0"
proof -
  have "pairScales coincidentSet =
      replicate 3 \<lparr>degreePerUnitX = Num 0, degreePerUnitY = Num 0\<rparr>"
    by code_simp
  then show ?thesis
    by (simp add: calibrate_coincidentSet coincidentResult_def num_ge_def num_le_def)
qed

text \<open>
  C10 as amended: for every calibration set of three points or more \<^verbatim>\<open>calibrate\<close>
  returns, and each error of the result is NaN or at least 0; both are at least 0 when
  the diagonal is finite and not 0; and both are 0 when, in addition, every pair scale
  equals the average scale that \<^verbatim>\<open>calibrate\<close> computes. (In exact arithmetic a set whose
  pair scales are all equal has that average; on doubles the mean of equal values can
  differ from them by a rounding error, and the error is then the rounded quotient of
  that difference by the diagonal.)
\<close>

theorem calibrate_error_sign:
  assumes "3 \<le> length cs"
  shows "\<exists>r. calibrate cs dims = Inr r
    \<and> (ex (maxError r) = NaN \<or> num_ge (ex (maxError r)) (Num 0))
    \<and> (ey (maxError r) = NaN \<or> num_ge (ey (maxError r)) (Num 0))
    \<and> (spec_diagonal cs dims = Num d \<and> d \<noteq> 0 \<longrightarrow>
         num_ge (ex (maxError r)) (Num 0) \<and> num_ge (ey (maxError r)) (Num 0))
    \<and> (spec_diagonal cs dims = Num d \<and> d \<noteq> 0
         \<and> (\<forall>s \<in> set (scalesOuter cs 0 []). s = spec_average cs) \<longrightarrow>
         ex (maxError r) = Num 0 \<and> ey (maxError r) = Num 0)"
proof -
  let ?r = "\<lparr>maxError = \<lparr>ex = spec_percentage (spec_maxXDiff cs) (spec_diagonal cs dims),
                            ey = spec_percentage (spec_maxYDiff cs) (spec_diagonal cs dims)\<rparr>,
             origin = spec_origin cs,
             opposite = spec_opposite cs dims\<rparr>"
  have res: "calibrate cs dims = Inr ?r" by (rule calibrate_result [OF assms])
  have cover: "length cs \<le> length (pairScales cs)"
    using assms pairs_cover_indices [of "length cs"] by (simp add: length_pairScales)
  have sign: "(ex (maxError ?r) = NaN \<or> num_ge (ex (maxError ?r)) (Num 0))
      \<and> (ey (maxError ?r) = NaN \<or> num_ge (ey (maxError ?r)) (Num 0))"
    using percentage_nonneg [OF spec_maxXDiff_nonneg spec_diagonal_nonneg]
      percentage_nonneg [OF spec_maxYDiff_nonneg spec_diagonal_nonneg]
    by simp
  have finite: "num_ge (ex (maxError ?r)) (Num 0) \<and> num_ge (ey (maxError ?r)) (Num 0)"
    if "spec_diagonal cs dims = Num d \<and> d \<noteq> 0"
  proof -
    from that spec_diagonal_nonneg [of cs dims] have "0 < d" by (auto simp: num_ge_Num)
    then show ?thesis
      using that
      by (simp add: percentage_nonneg_finite spec_maxXDiff_nonneg spec_maxYDiff_nonneg)
  qed
  have zero: "ex (maxError ?r) = Num 0 \<and> ey (maxError ?r) = Num 0"
    if c: "spec_diagonal cs dims = Num d \<and> d \<noteq> 0
         \<and> (\<forall>s \<in> set (scalesOuter cs 0 []). s = spec_average cs)"
  proof -
    have each: "pairScales cs ! i = spec_average cs" if "i < length cs" for i
    proof -
      from that cover have "pairScales cs ! i \<in> set (pairScales cs)" by simp
      with c show ?thesis by (simp add: scalesOuter_pairScales)
    qed
    have "spec_maxXDiff cs = Num 0"
      unfolding spec_maxXDiff_def
      by (rule trackMax_zeros) (auto simp: each self_difference)
    moreover have "spec_maxYDiff cs = Num 0"
      unfolding spec_maxYDiff_def
      by (rule trackMax_zeros) (auto simp: each self_difference)
    ultimately show ?thesis using c by (simp add: percentage_zero)
  qed
  from res sign finite zero
  have "calibrate cs dims = Inr ?r
    \<and> (ex (maxError ?r) = NaN \<or> num_ge (ex (maxError ?r)) (Num 0))
    \<and> (ey (maxError ?r) = NaN \<or> num_ge (ey (maxError ?r)) (Num 0))
    \<and> (spec_diagonal cs dims = Num d \<and> d \<noteq> 0 \<longrightarrow>
         num_ge (ex (maxError ?r)) (Num 0) \<and> num_ge (ey (maxError ?r)) (Num 0))
    \<and> (spec_diagonal cs dims = Num d \<and> d \<noteq> 0
         \<and> (\<forall>s \<in> set (scalesOuter cs 0 []). s = spec_average cs) \<longrightarrow>
         ex (maxError ?r) = Num 0 \<and> ey (maxError ?r) = Num 0)"
    by blast
  then show ?thesis by (rule exI)
qed

text \<open>
  C10 as amended, on the consistent set of three points: every pair scale is
  \<open>(3/128, 1/32)\<close>, and so is their mean, on doubles as well as exactly.
\<close>

theorem calibrate_error_sign_witness:
  "calibrate consistentSet squareImage = Inr consistentResult
   \<and> spec_diagonal consistentSet squareImage = Num (625 / 32)
   \<and> scalesOuter consistentSet 0 [] =
       replicate 3 \<lparr>degreePerUnitX = Num (3 / 128), degreePerUnitY = Num (1 / 32)\<rparr>
   \<and> spec_average consistentSet =
       \<lparr>degreePerUnitX = Num (3 / 128), degreePerUnitY = Num (1 / 32)\<rparr>
   \<and> num_ge (ex (maxError consistentResult)) (Num 0)
   \<and> num_ge (ey (maxError consistentResult)) (Num 0)
   \<and> ex (maxError consistentResult) = Num 0 \<and> ey (maxError consistentResult) = Num 0"
proof -
  have n: "3 \<le> length consistentSet" by (simp add: consistentSet_def)
  have ps: "scalesOuter consistentSet 0 [] =
      replicate 3 \<lparr>degreePerUnitX = Num (3 / 128), degreePerUnitY = Num (1 / 32)\<rparr>"
    by code_simp
  then have all: "\<forall>s \<in> set (scalesOuter consistentSet 0 []). s = spec_average consistentSet"
    by (simp add: consistentSet_average)
  have d: "(625 / 32 :: real) \<noteq> 0" by simp
  from calibrate_error_sign [OF n, of squareImage "625 / 32"]
  obtain r where r: "calibrate consistentSet squareImage = Inr r"
    and zero: "spec_diagonal consistentSet squareImage = Num (625 / 32) \<and> (625 / 32 :: real) \<noteq> 0
         \<and> (\<forall>s \<in> set (scalesOuter consistentSet 0 []). s = spec_average consistentSet) \<longrightarrow>
         ex (maxError r) = Num 0 \<and> ey (maxError r) = Num 0"
    and pos: "spec_diagonal consistentSet squareImage = Num (625 / 32) \<and> (625 / 32 :: real) \<noteq> 0
         \<longrightarrow> num_ge (ex (maxError r)) (Num 0) \<and> num_ge (ey (maxError r)) (Num 0)"
    by blast
  from r have "r = consistentResult" by (simp add: calibrate_consistentSet)
  with zero pos consistentSet_diagonal all d
  have "num_ge (ex (maxError consistentResult)) (Num 0)
      \<and> num_ge (ey (maxError consistentResult)) (Num 0)
      \<and> ex (maxError consistentResult) = Num 0 \<and> ey (maxError consistentResult) = Num 0"
    by blast
  with calibrate_consistentSet consistentSet_diagonal ps consistentSet_average
  show ?thesis by blast
qed

end
